theory Spec2Isabelle
  imports Complex_Main
begin

section \<open>The history and data analysis collaboration system\<close>

text \<open>
  A shallow embedding of the notebook
  \<^verbatim>\<open>all_agents_tutorials/multi_agent_collaboration_system.ipynb\<close>: the class
  \<^verbatim>\<open>Agent\<close>, the five step functions and
  \<^verbatim>\<open>HistoryDataCollaborationSystem.solve\<close>.

  What the Python does beyond returning values is made explicit:
  \<^item> the language model \<^verbatim>\<open>llm\<close> is a parameter: a function of the requests it has
    already received and of the new request, which either raises or returns the content
    of its response;
  \<^item> every call to \<^verbatim>\<open>llm.invoke\<close> is recorded, with its outcome, in a log that is
    threaded through all functions;
  \<^item> \<^verbatim>\<open>time.time()\<close> is a parameter too: \<open>clk n\<close> is the \<open>n\<close>-th reading taken
    during one invocation of \<^verbatim>\<open>solve\<close> (reading \<open>0\<close> is \<^verbatim>\<open>start_time\<close>). The
    readings are Python floats; they are taken as real numbers here, so the rounding
    of the subtraction is not modelled;
  \<^item> a raised exception is a value \<open>Inl e\<close>; every call to the language model
    either returns or raises an \<^verbatim>\<open>Exception\<close>;
  \<^item> the \<^verbatim>\<open>print\<close> calls are left out.
\<close>

subsection \<open>Data\<close>

text \<open>The three langchain message classes the code constructs, each with its content.\<close>

datatype message = SystemMessage string | HumanMessage string | AIMessage string

text \<open>
  An entry of the \<^verbatim>\<open>context\<close> list: a dict with the two keys \<^verbatim>\<open>"role"\<close> and
  \<^verbatim>\<open>"content"\<close>, which is how every step builds it. The role is a string, as in the
  source.
\<close>

record entry =
  role :: string
  content :: string

type_synonym "context" = "entry list"

text \<open>The attributes of \<^verbatim>\<open>Agent\<close> (the attribute \<^verbatim>\<open>role\<close> is \<open>agent_role\<close> here).\<close>

record agent =
  name :: string
  agent_role :: string
  skills :: "string list"

text \<open>
  Exceptions: whatever \<^verbatim>\<open>llm.invoke\<close> raises, carrying its \<^verbatim>\<open>str(e)\<close>, and the
  \<^verbatim>\<open>IndexError\<close> of \<^verbatim>\<open>context[-1]\<close> on an empty list.
\<close>

datatype exn = Exception string | IndexError

fun str :: "exn \<Rightarrow> string" where
  "str (Exception m) = m"
| "str IndexError = ''list index out of range''"

type_synonym response = "exn + string"

type_synonym log = "(message list \<times> response) list"

type_synonym llm = "message list list \<Rightarrow> message list \<Rightarrow> response"

type_synonym 'a io = "log \<Rightarrow> (exn + 'a) \<times> log"

subsection \<open>Agent.process\<close>

text \<open>\<^verbatim>\<open>sep.join(xs)\<close>\<close>

fun join :: "string \<Rightarrow> string list \<Rightarrow> string" where
  "join sep [] = []"
| "join sep [x] = x"
| "join sep (x # y # ys) = x @ sep @ join sep (y # ys)"

definition system_content :: "agent \<Rightarrow> string" where
  "system_content self =
     ''You are '' @ name self @ '', a '' @ agent_role self @ ''. Your skills include: ''
       @ join '', '' (skills self) @ ''. Respond to the task based on your role and skills.''"

text \<open>The loop \<^verbatim>\<open>for msg in context\<close>: an entry of any other role is skipped.\<close>

fun replay :: "message list \<Rightarrow> context \<Rightarrow> message list" where
  "replay messages [] = messages"
| "replay messages (msg # rest) =
     replay (if role msg = ''human'' then messages @ [HumanMessage (content msg)]
             else if role msg = ''ai'' then messages @ [AIMessage (content msg)]
             else messages) rest"

text \<open>
  The message list \<^verbatim>\<open>process\<close> builds. \<^verbatim>\<open>if context:\<close> is false for \<^verbatim>\<open>None\<close>
  and for the empty list.
\<close>

definition build_messages :: "agent \<Rightarrow> string \<Rightarrow> context option \<Rightarrow> message list" where
  "build_messages self task ctx =
     (let messages = [SystemMessage (system_content self)];
          messages = (case ctx of
                        None \<Rightarrow> messages
                      | Some c \<Rightarrow> if c \<noteq> [] then replay messages c else messages)
      in messages @ [HumanMessage task])"

definition process :: "llm \<Rightarrow> agent \<Rightarrow> string \<Rightarrow> context option \<Rightarrow> string io" where
  "process llm self task ctx lg =
     (let messages = build_messages self task ctx;
          response = llm (map fst lg) messages
      in (response, lg @ [(messages, response)]))"

subsection \<open>The five steps\<close>

text \<open>A step returns either the context list or a string.\<close>

datatype result = Ctx "context" | Str string

definition research_historical_context :: "llm \<Rightarrow> agent \<Rightarrow> string \<Rightarrow> context \<Rightarrow> result io" where
  "research_historical_context llm history_agent task ctx lg =
     (let history_task =
            ''Provide relevant historical context and information for the following task: '' @ task
      in case process llm history_agent history_task None lg of
           (Inl e, lg') \<Rightarrow> (Inl e, lg')
         | (Inr history_result, lg') \<Rightarrow>
             (Inr (Ctx (ctx @ [\<lparr>role = ''ai'', content = ''History Agent: '' @ history_result\<rparr>])), lg'))"

definition identify_data_needs :: "llm \<Rightarrow> agent \<Rightarrow> string \<Rightarrow> context \<Rightarrow> result io" where
  "identify_data_needs llm data_agent task ctx lg =
     (if ctx = [] then (Inl IndexError, lg)
      else let historical_context = content (last ctx);
               data_need_task =
                 ''Based on the historical context, what specific data or statistical information would be helpful to answer the original question? Historical context: ''
                   @ historical_context
           in case process llm data_agent data_need_task (Some ctx) lg of
                (Inl e, lg') \<Rightarrow> (Inl e, lg')
              | (Inr data_need_result, lg') \<Rightarrow>
                  (Inr (Ctx (ctx @ [\<lparr>role = ''ai'', content = ''Data Agent: '' @ data_need_result\<rparr>])), lg'))"

definition provide_historical_data :: "llm \<Rightarrow> agent \<Rightarrow> string \<Rightarrow> context \<Rightarrow> result io" where
  "provide_historical_data llm history_agent task ctx lg =
     (if ctx = [] then (Inl IndexError, lg)
      else let data_needs = content (last ctx);
               data_provision_task =
                 ''Based on the data needs identified, provide relevant historical data or statistics. Data needs: ''
                   @ data_needs
           in case process llm history_agent data_provision_task (Some ctx) lg of
                (Inl e, lg') \<Rightarrow> (Inl e, lg')
              | (Inr data_provision_result, lg') \<Rightarrow>
                  (Inr (Ctx (ctx @ [\<lparr>role = ''ai'', content = ''History Agent: '' @ data_provision_result\<rparr>])), lg'))"

definition analyze_data :: "llm \<Rightarrow> agent \<Rightarrow> string \<Rightarrow> context \<Rightarrow> result io" where
  "analyze_data llm data_agent task ctx lg =
     (if ctx = [] then (Inl IndexError, lg)
      else let historical_data = content (last ctx);
               analysis_task =
                 ''Analyze the historical data provided and describe any trends or insights relevant to the original task. Historical data: ''
                   @ historical_data
           in case process llm data_agent analysis_task (Some ctx) lg of
                (Inl e, lg') \<Rightarrow> (Inl e, lg')
              | (Inr analysis_result, lg') \<Rightarrow>
                  (Inr (Ctx (ctx @ [\<lparr>role = ''ai'', content = ''Data Agent: '' @ analysis_result\<rparr>])), lg'))"

definition synthesize_final_answer :: "llm \<Rightarrow> agent \<Rightarrow> string \<Rightarrow> context \<Rightarrow> result io" where
  "synthesize_final_answer llm history_agent task ctx lg =
     (let synthesis_task =
            ''Based on all the historical context, data, and analysis, provide a comprehensive answer to the original task.''
      in case process llm history_agent synthesis_task (Some ctx) lg of
           (Inl e, lg') \<Rightarrow> (Inl e, lg')
         | (Inr final_result, lg') \<Rightarrow> (Inr (Str final_result), lg'))"

subsection \<open>HistoryDataCollaborationSystem\<close>

record system =
  history_agent :: agent
  data_agent :: agent

text \<open>\<^verbatim>\<open>__init__\<close>\<close>

definition init :: system where
  "init =
     \<lparr>history_agent =
        \<lparr>name = ''Clio'', agent_role = ''History Research Specialist'',
         skills = [''deep knowledge of historical events'',
                   ''understanding of historical contexts'',
                   ''identifying historical trends'']\<rparr>,
      data_agent =
        \<lparr>name = ''Data'', agent_role = ''Data Analysis Expert'',
         skills = [''interpreting numerical data'', ''statistical analysis'',
                   ''data visualization description'']\<rparr>\<rparr>"

type_synonym step_func = "agent \<Rightarrow> string \<Rightarrow> context \<Rightarrow> result io"

text \<open>The list \<^verbatim>\<open>steps\<close> of \<^verbatim>\<open>solve\<close>.\<close>

definition steps :: "llm \<Rightarrow> system \<Rightarrow> (step_func \<times> agent) list" where
  "steps llm self =
     [(research_historical_context llm, history_agent self),
      (identify_data_needs llm, data_agent self),
      (provide_historical_data llm, history_agent self),
      (analyze_data llm, data_agent self),
      (synthesize_final_answer llm, history_agent self)]"

text \<open>
  How the \<^verbatim>\<open>for\<close> loop of \<^verbatim>\<open>solve\<close> ends: by one of its \<^verbatim>\<open>return\<close> statements, or
  by running out of steps with the context it has then.
\<close>

datatype loop_exit = Return string | Exhausted "context"

text \<open>
  The loop over the remaining steps. \<open>n\<close> is the index of the next clock reading, so
  the check before the \<open>k\<close>-th step of \<^verbatim>\<open>solve\<close> reads \<open>clk k\<close>.
\<close>

fun run_steps ::
  "(nat \<Rightarrow> real) \<Rightarrow> real \<Rightarrow> int \<Rightarrow> string \<Rightarrow> (step_func \<times> agent) list \<Rightarrow> nat \<Rightarrow> context \<Rightarrow> log
     \<Rightarrow> loop_exit \<times> log" where
  "run_steps clk start_time timeout task [] n ctx lg = (Exhausted ctx, lg)"
| "run_steps clk start_time timeout task ((step_func, agent) # rest) n ctx lg =
     (if clk n - start_time > real_of_int timeout
      then (Return ''Operation timed out. The process took too long to complete.'', lg)
      else case step_func agent task ctx lg of
             (Inl e, lg') \<Rightarrow> (Return (''Error during collaboration: '' @ str e), lg')
           | (Inr (Str s), lg') \<Rightarrow> (Return s, lg')
           | (Inr (Ctx c), lg') \<Rightarrow> run_steps clk start_time timeout task rest (Suc n) c lg')"

text \<open>
  \<^verbatim>\<open>solve\<close>. After the loop the source returns \<^verbatim>\<open>context[-1]["content"]\<close>, outside
  the \<^verbatim>\<open>try\<close>: on an empty context the \<^verbatim>\<open>IndexError\<close> would reach the caller.
\<close>

definition solve :: "llm \<Rightarrow> (nat \<Rightarrow> real) \<Rightarrow> system \<Rightarrow> string \<Rightarrow> int \<Rightarrow> string io" where
  "solve llm clk self task timeout lg =
     (let start_time = clk 0;
          ctx = []
      in case run_steps clk start_time timeout task (steps llm self) 1 ctx lg of
           (Return s, lg') \<Rightarrow> (Inr s, lg')
         | (Exhausted c, lg') \<Rightarrow>
             (if c = [] then (Inl IndexError, lg') else (Inr (content (last c)), lg')))"

subsection \<open>Test doubles\<close>

text \<open>
  A deterministic language model for tests: it answers its \<open>n\<close>-th request (counted
  from \<open>0\<close> over its whole life) with the string at position \<open>n mod length Rs\<close>,
  whatever the request says, and never raises.
\<close>

definition stub :: "string list \<Rightarrow> llm" where
  "stub Rs history messages = Inr (Rs ! (length history mod length Rs))"

text \<open>A language model that raises on request number \<open>i\<close> (counted from \<open>0\<close>).\<close>

definition failing_stub :: "string list \<Rightarrow> nat \<Rightarrow> string \<Rightarrow> llm" where
  "failing_stub Rs i msg history messages =
     (if length history = i then Inl (Exception msg) else stub Rs history messages)"

text \<open>A clock that gives the listed readings in turn and then repeats the last one.\<close>

definition readings :: "real list \<Rightarrow> nat \<Rightarrow> real" where
  "readings ts n = (if n < length ts then ts ! n else last ts)"

section \<open>Lemmas about Agent.process\<close>

text \<open>What one entry of the context becomes when its role is \<^verbatim>\<open>human\<close> or \<^verbatim>\<open>ai\<close>.\<close>

definition to_message :: "entry \<Rightarrow> message" where
  "to_message msg = (if role msg = ''human'' then HumanMessage (content msg) else AIMessage (content msg))"

lemma replay_known:
  "\<forall>msg \<in> set c. role msg = ''human'' \<or> role msg = ''ai'' \<Longrightarrow>
   replay messages c = messages @ map to_message c"
  by (induction c arbitrary: messages) (auto simp: to_message_def)

section \<open>The loop of solve\<close>

lemma process_eq:
  "process llm a t c lg =
     (llm (map fst lg) (build_messages a t c),
      lg @ [(build_messages a t c, llm (map fst lg) (build_messages a t c))])"
  by (simp add: process_def Let_def)

lemma steps_length: "length (steps llm self) = 5"
  by (simp add: steps_def)

lemma run_steps_append:
  "run_steps clk st tmo task (xs @ ys) n c lg =
     (case run_steps clk st tmo task xs n c lg of
        (Return s, l) \<Rightarrow> (Return s, l)
      | (Exhausted c', l) \<Rightarrow> run_steps clk st tmo task ys (n + length xs) c' l)"
proof (induction xs arbitrary: n c lg)
  case Nil
  show ?case by simp
next
  case (Cons x xs)
  obtain f a where x: "x = (f, a)" by (cases x)
  show ?case
    by (auto simp: x Cons.IH split: prod.splits sum.splits result.splits loop_exit.splits)
qed

lemma pipeline_step:
  assumes "j < 5" and "j = 0 \<or> c \<noteq> []"
  shows "\<exists>p. snd (fst (steps llm self ! j) (snd (steps llm self ! j)) task c lg)
               = lg @ [(build_messages (snd (steps llm self ! j)) p (if j = 0 then None else Some c),
                        llm (map fst lg) (build_messages (snd (steps llm self ! j)) p (if j = 0 then None else Some c)))]
           \<and> fst (fst (steps llm self ! j) (snd (steps llm self ! j)) task c lg)
               = (case llm (map fst lg) (build_messages (snd (steps llm self ! j)) p (if j = 0 then None else Some c)) of
                    Inl e \<Rightarrow> Inl e
                  | Inr r \<Rightarrow> if j = 4 then Inr (Str r)
                            else Inr (Ctx (c @ [\<lparr>role = ''ai'',
                                   content = (if even j then ''History Agent: '' else ''Data Agent: '') @ r\<rparr>])))"
proof -
  from assms(1) consider "j = 0" | "j = 1" | "j = 2" | "j = 3" | "j = 4" by linarith
  then show ?thesis
  proof cases
    case 1
    show ?thesis unfolding 1 steps_def research_historical_context_def process_eq
      by (rule exI[where x = "''Provide relevant historical context and information for the following task: '' @ task"])
         (simp split: sum.splits)
  next
    case 2
    with assms(2) have ne: "c \<noteq> []" by simp
    show ?thesis unfolding 2 steps_def identify_data_needs_def process_eq Let_def
      by (rule exI[where x = "''Based on the historical context, what specific data or statistical information would be helpful to answer the original question? Historical context: '' @ content (last c)"])
         (simp add: ne split: sum.splits)
  next
    case 3
    with assms(2) have ne: "c \<noteq> []" by simp
    show ?thesis unfolding 3 steps_def provide_historical_data_def process_eq Let_def
      by (rule exI[where x = "''Based on the data needs identified, provide relevant historical data or statistics. Data needs: '' @ content (last c)"])
         (simp add: ne split: sum.splits)
  next
    case 4
    with assms(2) have ne: "c \<noteq> []" by simp
    show ?thesis unfolding 4 steps_def analyze_data_def process_eq Let_def
      by (rule exI[where x = "''Analyze the historical data provided and describe any trends or insights relevant to the original task. Historical data: '' @ content (last c)"])
         (simp add: ne split: sum.splits)
  next
    case 5
    with assms(2) have ne: "c \<noteq> []" by simp
    show ?thesis unfolding 5 steps_def synthesize_final_answer_def process_eq Let_def
      by (rule exI[where x = "''Based on all the historical context, data, and analysis, provide a comprehensive answer to the original task.''"])
         (simp add: ne split: sum.splits)
  qed
qed


lemma run_one:
  assumes "j < 5" and "j = 0 \<or> c \<noteq> []" and "\<not> clk n - st > real_of_int tmo"
  shows "\<exists>p. run_steps clk st tmo task [steps llm self ! j] n c lg
             = (case llm (map fst lg) (build_messages (snd (steps llm self ! j)) p (if j = 0 then None else Some c)) of
                  Inl e \<Rightarrow> Return (''Error during collaboration: '' @ str e)
                | Inr r \<Rightarrow> if j = 4 then Return r
                          else Exhausted (c @ [\<lparr>role = ''ai'',
                                 content = (if even j then ''History Agent: '' else ''Data Agent: '') @ r\<rparr>]),
                lg @ [(build_messages (snd (steps llm self ! j)) p (if j = 0 then None else Some c),
                       llm (map fst lg) (build_messages (snd (steps llm self ! j)) p (if j = 0 then None else Some c)))])"
proof -
  obtain f a where fa: "steps llm self ! j = (f, a)" by (cases "steps llm self ! j")
  from pipeline_step[OF assms(1,2), of llm self task lg] obtain p where
    p: "snd (f a task c lg) = lg @ [(build_messages a p (if j = 0 then None else Some c),
                        llm (map fst lg) (build_messages a p (if j = 0 then None else Some c)))]"
       "fst (f a task c lg) = (case llm (map fst lg) (build_messages a p (if j = 0 then None else Some c)) of
                    Inl e \<Rightarrow> Inl e
                  | Inr r \<Rightarrow> if j = 4 then Inr (Str r)
                            else Inr (Ctx (c @ [\<lparr>role = ''ai'',
                                   content = (if even j then ''History Agent: '' else ''Data Agent: '') @ r\<rparr>])))"
    unfolding fa by auto
  define m where "m = build_messages a p (if j = 0 then None else Some c)"
  obtain res l where rl: "f a task c lg = (res, l)" by (cases "f a task c lg")
  have l: "l = lg @ [(m, llm (map fst lg) m)]"
    using p(1) by (simp add: rl m_def)
  have res: "res = (case llm (map fst lg) m of
                    Inl e \<Rightarrow> Inl e
                  | Inr r \<Rightarrow> if j = 4 then Inr (Str r)
                            else Inr (Ctx (c @ [\<lparr>role = ''ai'',
                                   content = (if even j then ''History Agent: '' else ''Data Agent: '') @ r\<rparr>])))"
    using p(2) by (simp add: rl m_def)
  have run: "run_steps clk st tmo task [(f, a)] n c lg =
        (case res of Inl e \<Rightarrow> (Return (''Error during collaboration: '' @ str e), l)
         | Inr (Str s) \<Rightarrow> (Return s, l)
         | Inr (Ctx c') \<Rightarrow> (Exhausted c', l))"
    using assms(3) by (simp add: rl split: sum.splits result.splits)
  have "run_steps clk st tmo task [(f, a)] n c lg
             = (case llm (map fst lg) m of
                  Inl e \<Rightarrow> Return (''Error during collaboration: '' @ str e)
                | Inr r \<Rightarrow> if j = 4 then Return r
                          else Exhausted (c @ [\<lparr>role = ''ai'',
                                 content = (if even j then ''History Agent: '' else ''Data Agent: '') @ r\<rparr>]),
                lg @ [(m, llm (map fst lg) m)])"
    unfolding run res l by (cases "llm (map fst lg) m") simp_all
  then show ?thesis
    unfolding fa m_def by (intro exI[where x = p]) simp
qed


lemma run_inv:
  assumes "j \<le> 5"
  shows "\<exists>new. snd (run_steps clk (clk 0) tmo task (take j (steps llm self)) 1 [] lg) = lg @ new
           \<and> length new \<le> j
           \<and> (\<forall>k. 1 \<le> k \<and> k \<le> length new \<longrightarrow> \<not> real_of_int tmo < clk k - clk 0)
           \<and> (case fst (run_steps clk (clk 0) tmo task (take j (steps llm self)) 1 [] lg) of
                 Exhausted c \<Rightarrow> j \<le> 4 \<and> length c = j \<and> length new = j \<and> (\<forall>x \<in> set new. \<not> isl (snd x))
               | Return s \<Rightarrow>
                   (s = ''Operation timed out. The process took too long to complete.''
                      \<and> real_of_int tmo < clk (Suc (length new)) - clk 0 \<and> length new < j
                      \<and> (\<forall>x \<in> set new. \<not> isl (snd x)))
                   \<or> (\<exists>pre m e. new = pre @ [(m, Inl e)] \<and> (\<forall>x \<in> set pre. \<not> isl (snd x))
                         \<and> s = ''Error during collaboration: '' @ str e)
                   \<or> (j = 5 \<and> length new = 5 \<and> (\<forall>x \<in> set new. \<not> isl (snd x))
                         \<and> (\<exists>m. last new = (m, Inr s))))"
  using assms
proof (induction j)
  case 0
  show ?case by simp
next
  case (Suc j)
  let ?R = "run_steps clk (clk 0) tmo task (take j (steps llm self)) 1 [] lg"
  let ?T = "\<lambda>k. real_of_int tmo < clk k - clk 0"
  let ?tm = "''Operation timed out. The process took too long to complete.''"
  from Suc.prems have j: "j < 5" "j \<le> 4" by simp_all
  have split: "take (Suc j) (steps llm self) = take j (steps llm self) @ [steps llm self ! j]"
    using j by (simp add: take_Suc_conv_app_nth steps_length)
  have len: "length (take j (steps llm self)) = j"
    using j by (simp add: steps_length)
  from Suc.IH j obtain new where
    new: "snd ?R = lg @ new" "length new \<le> j"
      "\<forall>k. 1 \<le> k \<and> k \<le> length new \<longrightarrow> \<not> ?T k"
    and cs: "case fst ?R of
                 Exhausted c \<Rightarrow> j \<le> 4 \<and> length c = j \<and> length new = j \<and> (\<forall>x \<in> set new. \<not> isl (snd x))
               | Return s \<Rightarrow>
                   (s = ?tm \<and> ?T (Suc (length new)) \<and> length new < j
                      \<and> (\<forall>x \<in> set new. \<not> isl (snd x)))
                   \<or> (\<exists>pre m e. new = pre @ [(m, Inl e)] \<and> (\<forall>x \<in> set pre. \<not> isl (snd x))
                         \<and> s = ''Error during collaboration: '' @ str e)
                   \<or> (j = 5 \<and> length new = 5 \<and> (\<forall>x \<in> set new. \<not> isl (snd x))
                         \<and> (\<exists>m. last new = (m, Inr s)))"
    by auto
  show ?case
  proof (cases "fst ?R")
    case (Return s)
    then have R: "?R = (Return s, lg @ new)" using new(1) by (cases ?R) simp
    have eq: "run_steps clk (clk 0) tmo task (take (Suc j) (steps llm self)) 1 [] lg = (Return s, lg @ new)"
      unfolding split run_steps_append R by simp
    show ?thesis
      unfolding eq using new(2,3) cs j unfolding Return
      by (intro exI[where x = new]) auto
  next
    case (Exhausted c)
    then have R: "?R = (Exhausted c, lg @ new)" using new(1) by (cases ?R) simp
    from cs Exhausted have c: "length c = j" "length new = j" "\<forall>x \<in> set new. \<not> isl (snd x)"
      by simp_all
    have eq: "run_steps clk (clk 0) tmo task (take (Suc j) (steps llm self)) 1 [] lg
                = run_steps clk (clk 0) tmo task [steps llm self ! j] (Suc j) c (lg @ new)"
      unfolding split run_steps_append R len by simp
    show ?thesis
    proof (cases "?T (Suc j)")
      case True
      have "run_steps clk (clk 0) tmo task [steps llm self ! j] (Suc j) c (lg @ new) = (Return ?tm, lg @ new)"
        using True by (cases "steps llm self ! j") simp
      then show ?thesis
        unfolding eq using new(2,3) c True
        by (intro exI[where x = new]) auto
    next
      case False
      have jc: "j = 0 \<or> c \<noteq> []" using c(1) by auto
      from run_one[where j = j and c = c and clk = clk and n = "Suc j" and st = "clk 0"
             and tmo = tmo and task = task and llm = llm and self = self and lg = "lg @ new"]
           j(1) jc False
      obtain m where
        m: "run_steps clk (clk 0) tmo task [steps llm self ! j] (Suc j) c (lg @ new)
             = (case llm (map fst (lg @ new)) m of
                  Inl e \<Rightarrow> Return (''Error during collaboration: '' @ str e)
                | Inr r \<Rightarrow> if j = 4 then Return r
                          else Exhausted (c @ [\<lparr>role = ''ai'',
                                 content = (if even j then ''History Agent: '' else ''Data Agent: '') @ r\<rparr>]),
                (lg @ new) @ [(m, llm (map fst (lg @ new)) m)])"
        by blast
      have T': "\<forall>k. 1 \<le> k \<and> k \<le> Suc (length new) \<longrightarrow> \<not> ?T k"
        using new(3) False c(2) by (auto simp: le_Suc_eq)
      show ?thesis
      proof (cases "llm (map fst (lg @ new)) m")
        case (Inl e)
        show ?thesis
          unfolding eq m Inl using c T'
          by (intro exI[where x = "new @ [(m, Inl e)]"]) auto
      next
        case (Inr r)
        show ?thesis
          unfolding eq m Inr using c T' j
          by (intro exI[where x = "new @ [(m, Inr r)]"]) auto
      qed
    qed
  qed
qed


text \<open>
  Every run of \<^verbatim>\<open>solve\<close> ends in one of three ways: at a timeout check, at a step
  that raised, or with the answer of the fifth step. \<open>new\<close> and \<open>pre\<close> are the calls
  the run added to the log.
\<close>

lemma solve_cases:
  obtains
    (timed_out) new where
      "run_steps clk (clk 0) tmo task (steps llm self) 1 [] lg
         = (Return ''Operation timed out. The process took too long to complete.'', lg @ new)"
      "solve llm clk self task tmo lg
         = (Inr ''Operation timed out. The process took too long to complete.'', lg @ new)"
      "length new < 5" "\<forall>x \<in> set new. \<not> isl (snd x)"
      "real_of_int tmo < clk (Suc (length new)) - clk 0"
      "\<forall>k. 1 \<le> k \<and> k \<le> length new \<longrightarrow> \<not> real_of_int tmo < clk k - clk 0"
  | (failed) pre m e where
      "run_steps clk (clk 0) tmo task (steps llm self) 1 [] lg
         = (Return (''Error during collaboration: '' @ str e), lg @ pre @ [(m, Inl e)])"
      "solve llm clk self task tmo lg
         = (Inr (''Error during collaboration: '' @ str e), lg @ pre @ [(m, Inl e)])"
      "length pre < 5" "\<forall>x \<in> set pre. \<not> isl (snd x)"
      "\<forall>k. 1 \<le> k \<and> k \<le> Suc (length pre) \<longrightarrow> \<not> real_of_int tmo < clk k - clk 0"
  | (answered) pre m r where
      "run_steps clk (clk 0) tmo task (steps llm self) 1 [] lg = (Return r, lg @ pre @ [(m, Inr r)])"
      "solve llm clk self task tmo lg = (Inr r, lg @ pre @ [(m, Inr r)])"
      "length pre = 4" "\<forall>x \<in> set pre. \<not> isl (snd x)"
      "\<forall>k. 1 \<le> k \<and> k \<le> 5 \<longrightarrow> \<not> real_of_int tmo < clk k - clk 0"
proof -
  let ?R = "run_steps clk (clk 0) tmo task (steps llm self) 1 [] lg"
  have all: "take 5 (steps llm self) = steps llm self"
    by (simp add: steps_length)
  have "(5::nat) \<le> 5" by simp
  note inv = run_inv[OF this, of clk tmo task llm self lg, unfolded all]
  from inv obtain new where
    new: "snd ?R = lg @ new" "length new \<le> 5"
      "\<forall>k. 1 \<le> k \<and> k \<le> length new \<longrightarrow> \<not> real_of_int tmo < clk k - clk 0"
    and cs0: "case fst ?R of
                 Exhausted c \<Rightarrow> (5::nat) \<le> 4 \<and> length c = 5 \<and> length new = 5 \<and> (\<forall>x \<in> set new. \<not> isl (snd x))
               | Return s \<Rightarrow>
                   (s = ''Operation timed out. The process took too long to complete.''
                      \<and> real_of_int tmo < clk (Suc (length new)) - clk 0 \<and> length new < 5
                      \<and> (\<forall>x \<in> set new. \<not> isl (snd x)))
                   \<or> (\<exists>pre m e. new = pre @ [(m, Inl e)] \<and> (\<forall>x \<in> set pre. \<not> isl (snd x))
                         \<and> s = ''Error during collaboration: '' @ str e)
                   \<or> ((5::nat) = 5 \<and> length new = 5 \<and> (\<forall>x \<in> set new. \<not> isl (snd x))
                         \<and> (\<exists>m. last new = (m, Inr s)))"
    by blast
  from cs0 obtain s where s: "fst ?R = Return s" by (cases "fst ?R") simp_all
  from cs0 have cs: "(s = ''Operation timed out. The process took too long to complete.''
                      \<and> real_of_int tmo < clk (Suc (length new)) - clk 0 \<and> length new < 5
                      \<and> (\<forall>x \<in> set new. \<not> isl (snd x)))
                   \<or> (\<exists>pre m e. new = pre @ [(m, Inl e)] \<and> (\<forall>x \<in> set pre. \<not> isl (snd x))
                         \<and> s = ''Error during collaboration: '' @ str e)
                   \<or> (length new = 5 \<and> (\<forall>x \<in> set new. \<not> isl (snd x))
                         \<and> (\<exists>m. last new = (m, Inr s)))"
    unfolding s loop_exit.case by blast
  from s have R: "?R = (Return s, lg @ new)" using new(1) by (cases ?R) simp
  have S: "solve llm clk self task tmo lg = (Inr s, lg @ new)"
    unfolding solve_def Let_def R by simp
  from cs consider
      (a) "s = ''Operation timed out. The process took too long to complete.''"
          "real_of_int tmo < clk (Suc (length new)) - clk 0" "length new < 5"
          "\<forall>x \<in> set new. \<not> isl (snd x)"
    | (b) pre m e where "new = pre @ [(m, Inl e)]" "\<forall>x \<in> set pre. \<not> isl (snd x)"
          "s = ''Error during collaboration: '' @ str e"
    | (c) m where "length new = 5" "\<forall>x \<in> set new. \<not> isl (snd x)" "last new = (m, Inr s)"
    by auto
  then show thesis
  proof cases
    case a
    show thesis using timed_out[of new] R S a new(3) by simp
  next
    case b
    show thesis using failed[of e pre m] R S b new(2,3) by simp
  next
    case c
    from c(1) have ne: "new \<noteq> []" by auto
    then have eq: "new = butlast new @ [(m, Inr s)]"
      using c(3) by (metis append_butlast_last_id)
    have "length (butlast new) = 4" using c(1) by simp
    moreover have "\<forall>x \<in> set (butlast new). \<not> isl (snd x)"
      using c(2) by (auto dest: in_set_butlastD)
    moreover have "?R = (Return s, lg @ butlast new @ [(m, Inr s)])"
      using R eq by simp
    moreover have "solve llm clk self task tmo lg = (Inr s, lg @ butlast new @ [(m, Inr s)])"
      using S eq by simp
    ultimately show thesis using answered[of s "butlast new" m] new(3) c(1) by simp
  qed
qed

text \<open>Every step only adds calls to the log, so the rest of a run does too.\<close>

lemma step_log_ext:
  assumes "j < 5"
  shows "\<exists>ext. snd (fst (steps llm self ! j) (snd (steps llm self ! j)) task c lg) = lg @ ext"
proof -
  from assms consider "j = 0" | "j = 1" | "j = 2" | "j = 3" | "j = 4" by linarith
  then show ?thesis
    by cases
      (simp_all add: steps_def research_historical_context_def identify_data_needs_def
         provide_historical_data_def analyze_data_def synthesize_final_answer_def
         process_eq Let_def split: sum.splits)
qed

lemma run_steps_log_ext:
  assumes "\<forall>x \<in> set xs. \<forall>c lg. \<exists>ext. snd (fst x (snd x) task c lg) = lg @ ext"
  shows "\<exists>ext. snd (run_steps clk st tmo task xs n c lg) = lg @ ext"
  using assms
proof (induction xs arbitrary: n c lg)
  case Nil
  show ?case by simp
next
  case (Cons x xs)
  obtain f a where x: "x = (f, a)" by (cases x)
  from Cons.prems obtain ext where ext: "snd (f a task c lg) = lg @ ext"
    unfolding x by fastforce
  obtain res l where rl: "f a task c lg = (res, l)" by (cases "f a task c lg")
  with ext have l: "l = lg @ ext" by simp
  have IH: "\<And>n c. \<exists>ext'. snd (run_steps clk st tmo task xs n c l) = l @ ext'"
    using Cons.IH Cons.prems by simp
  show ?case
  proof (cases "clk n - st > real_of_int tmo")
    case True
    then show ?thesis by (simp add: x)
  next
    case False
    show ?thesis
    proof (cases res)
      case (Inl e)
      then show ?thesis using False by (simp add: x rl l)
    next
      case (Inr r)
      show ?thesis
      proof (cases r)
        case (Str s)
        then show ?thesis using False Inr by (simp add: x rl l)
      next
        case (Ctx c')
        from IH[of "Suc n" c'] obtain ext' where
          "snd (run_steps clk st tmo task xs (Suc n) c' l) = l @ ext'" by blast
        then show ?thesis using False Inr Ctx by (simp add: x rl l)
      qed
    qed
  qed
qed

lemma rest_log_ext:
  "\<exists>ext. snd (run_steps clk st tmo task (drop k (steps llm self)) n c lg) = lg @ ext"
proof (rule run_steps_log_ext)
  show "\<forall>x \<in> set (drop k (steps llm self)). \<forall>c lg. \<exists>ext. snd (fst x (snd x) task c lg) = lg @ ext"
  proof
    fix x assume "x \<in> set (drop k (steps llm self))"
    then have "x \<in> set (steps llm self)" by (rule in_set_dropD)
    then obtain j where "j < 5" "x = steps llm self ! j"
      by (auto simp: in_set_conv_nth steps_length)
    then show "\<forall>c lg. \<exists>ext. snd (fst x (snd x) task c lg) = lg @ ext"
      using step_log_ext by blast
  qed
qed

text \<open>The loop seen from the check before step \<open>k\<close>.\<close>

lemma reached:
  assumes "j \<le> 4"
    and "run_steps clk (clk 0) tmo task (take j (steps llm self)) 1 [] lg = (Exhausted c, l)"
  shows "length c = j"
    and "\<exists>new. l = lg @ new \<and> length new = j \<and> (\<forall>x \<in> set new. \<not> isl (snd x))"
    and "\<forall>k. 1 \<le> k \<and> k \<le> j \<longrightarrow> \<not> real_of_int tmo < clk k - clk 0"
proof -
  from assms(1) have "j \<le> 5" by simp
  from run_inv[OF this, of clk tmo task llm self lg] obtain new where
    "l = lg @ new" "length c = j \<and> length new = j \<and> (\<forall>x \<in> set new. \<not> isl (snd x))"
    "\<forall>k. 1 \<le> k \<and> k \<le> length new \<longrightarrow> \<not> real_of_int tmo < clk k - clk 0"
    unfolding assms(2) by auto
  then show "length c = j"
    and "\<exists>new. l = lg @ new \<and> length new = j \<and> (\<forall>x \<in> set new. \<not> isl (snd x))"
    and "\<forall>k. 1 \<le> k \<and> k \<le> j \<longrightarrow> \<not> real_of_int tmo < clk k - clk 0"
    by auto
qed

lemma from_boundary:
  assumes "1 \<le> k" "k \<le> 5"
    and "run_steps clk (clk 0) tmo task (take (k - 1) (steps llm self)) 1 [] lg = (Exhausted c, l)"
  shows "run_steps clk (clk 0) tmo task (steps llm self) 1 [] lg
           = run_steps clk (clk 0) tmo task (steps llm self ! (k - 1) # drop k (steps llm self)) k c l"
proof -
  have k: "Suc (k - 1) = k" "1 + (k - 1) = k" using assms(1) by simp_all
  have "k - 1 < length (steps llm self)" using assms(1,2) by (simp add: steps_length)
  from id_take_nth_drop[OF this]
  have s: "steps llm self
             = take (k - 1) (steps llm self) @ steps llm self ! (k - 1) # drop k (steps llm self)"
    unfolding k .
  have len: "length (take (k - 1) (steps llm self)) = k - 1"
    using assms(2) by (simp add: steps_length)
  have "run_steps clk (clk 0) tmo task (steps llm self) 1 [] lg
      = run_steps clk (clk 0) tmo task
          (take (k - 1) (steps llm self) @ steps llm self ! (k - 1) # drop k (steps llm self)) 1 [] lg"
    using arg_cong[OF s, of "\<lambda>xs. run_steps clk (clk 0) tmo task xs 1 [] lg"] .
  also have "\<dots> = run_steps clk (clk 0) tmo task
                     (steps llm self ! (k - 1) # drop k (steps llm self)) k c l"
    unfolding run_steps_append assms(3) len k by simp
  finally show ?thesis .
qed

lemma solve_from_run:
  assumes "run_steps clk (clk 0) tmo task (steps llm self) 1 [] lg = (Return s, l)"
  shows "solve llm clk self task tmo lg = (Inr s, l)"
  unfolding solve_def Let_def assms by simp

lemma solve_log:
  "snd (solve llm clk self task tmo lg) = snd (run_steps clk (clk 0) tmo task (steps llm self) 1 [] lg)"
  by (simp add: solve_def split: prod.splits loop_exit.splits)

lemma timeout_at_boundary:
  assumes "1 \<le> k" "k \<le> 5"
    and "run_steps clk (clk 0) tmo task (take (k - 1) (steps llm self)) 1 [] lg = (Exhausted c, l)"
    and "real_of_int tmo < clk k - clk 0"
  shows "solve llm clk self task tmo lg
           = (Inr ''Operation timed out. The process took too long to complete.'', l)"
proof (rule solve_from_run)
  show "run_steps clk (clk 0) tmo task (steps llm self) 1 [] lg
          = (Return ''Operation timed out. The process took too long to complete.'', l)"
    unfolding from_boundary[OF assms(1,2,3)] using assms(4)
    by (cases "steps llm self ! (k - 1)") simp
qed

lemma step_at_boundary:
  assumes "1 \<le> k" "k \<le> 5"
    and "run_steps clk (clk 0) tmo task (take (k - 1) (steps llm self)) 1 [] lg = (Exhausted c, l)"
    and "\<not> real_of_int tmo < clk k - clk 0"
  shows "\<exists>m r ext. snd (solve llm clk self task tmo lg) = l @ (m, r) # ext"
proof -
  let ?j = "k - 1"
  obtain f a where fa: "steps llm self ! ?j = (f, a)" by (cases "steps llm self ! ?j")
  have j: "?j < 5" "?j \<le> 4" using assms(1,2) by simp_all
  have "length c = ?j" using reached(1)[OF j(2) assms(3)] .
  then have jc: "?j = 0 \<or> c \<noteq> []" by auto
  from pipeline_step[OF j(1) jc, of llm self task l] obtain m r where
    m: "snd (f a task c l) = l @ [(m, r)]"
    unfolding fa by auto
  obtain res where res: "f a task c l = (res, l @ [(m, r)])"
    using m by (cases "f a task c l") simp
  have run: "run_steps clk (clk 0) tmo task (steps llm self) 1 [] lg
              = run_steps clk (clk 0) tmo task ((f, a) # drop k (steps llm self)) k c l"
    using from_boundary[OF assms(1,2,3)] fa by simp
  have "\<exists>ext. snd (run_steps clk (clk 0) tmo task ((f, a) # drop k (steps llm self)) k c l)
                = l @ (m, r) # ext"
  proof (cases res)
    case (Inl e)
    then show ?thesis using assms(4) by (simp add: res)
  next
    case (Inr x)
    show ?thesis
    proof (cases x)
      case (Str s)
      then show ?thesis using assms(4) Inr by (simp add: res)
    next
      case (Ctx c')
      from rest_log_ext[of clk "clk 0" tmo task k llm self "Suc k" c' "l @ [(m, r)]"]
      show ?thesis using assms(4) Inr Ctx by (simp add: res)
    qed
  qed
  then show ?thesis unfolding solve_log run by blast
qed

text \<open>
  A run that returned within its first \<open>j\<close> steps returned; and a step whose check
  passes runs on the context and the log the loop has then.
\<close>

lemma prefix_return:
  assumes "run_steps clk (clk 0) tmo task (take j (steps llm self)) 1 [] lg = (Return s, l)"
  shows "run_steps clk (clk 0) tmo task (steps llm self) 1 [] lg = (Return s, l)"
proof -
  have "run_steps clk (clk 0) tmo task (take j (steps llm self) @ drop j (steps llm self)) 1 [] lg
          = (Return s, l)"
    unfolding run_steps_append assms by simp
  then show ?thesis by simp
qed

lemma step_pinned:
  assumes "1 \<le> k" "k \<le> 5"
    and "run_steps clk (clk 0) tmo task (take (k - 1) (steps llm self)) 1 [] lg = (Exhausted c, l)"
    and "\<not> real_of_int tmo < clk k - clk 0"
  shows "\<exists>p ext.
           snd (fst (steps llm self ! (k - 1)) (snd (steps llm self ! (k - 1))) task c l)
             = snd (process llm (snd (steps llm self ! (k - 1))) p (if k = 1 then None else Some c) l)
         \<and> snd (solve llm clk self task tmo lg)
             = snd (fst (steps llm self ! (k - 1)) (snd (steps llm self ! (k - 1))) task c l) @ ext"
proof -
  let ?j = "k - 1"
  obtain f a where fa: "steps llm self ! ?j = (f, a)" by (cases "steps llm self ! ?j")
  have j: "?j < 5" "?j \<le> 4" "(?j = 0) = (k = 1)" using assms(1,2) by auto
  have "length c = ?j" using reached(1)[OF j(2) assms(3)] .
  then have jc: "?j = 0 \<or> c \<noteq> []" by auto
  from pipeline_step[OF j(1) jc, of llm self task l] obtain p where
    "snd (f a task c l) = l @ [(build_messages a p (if ?j = 0 then None else Some c),
         llm (map fst l) (build_messages a p (if ?j = 0 then None else Some c)))]"
    unfolding fa by auto
  then have pin: "snd (f a task c l) = snd (process llm a p (if k = 1 then None else Some c) l)"
    unfolding process_eq j(3) by simp
  obtain res l' where res: "f a task c l = (res, l')" by (cases "f a task c l")
  have run: "run_steps clk (clk 0) tmo task (steps llm self) 1 [] lg
              = run_steps clk (clk 0) tmo task ((f, a) # drop k (steps llm self)) k c l"
    using from_boundary[OF assms(1,2,3)] fa by simp
  have "\<exists>ext. snd (run_steps clk (clk 0) tmo task ((f, a) # drop k (steps llm self)) k c l)
                = l' @ ext"
  proof (cases res)
    case (Inl e)
    then show ?thesis using assms(4) by (simp add: res)
  next
    case (Inr x)
    show ?thesis
    proof (cases x)
      case (Str s)
      then show ?thesis using assms(4) Inr by (simp add: res)
    next
      case (Ctx c')
      from rest_log_ext[of clk "clk 0" tmo task k llm self "Suc k" c' l']
      show ?thesis using assms(4) Inr Ctx by (simp add: res)
    qed
  qed
  then obtain ext where "snd (solve llm clk self task tmo lg) = snd (f a task c l) @ ext"
    unfolding solve_log run res by auto
  with pin show ?thesis unfolding fa by auto
qed

text \<open>One more step of the loop, from the check before it.\<close>

lemma next_boundary:
  assumes "j < 5"
    and "run_steps clk (clk 0) tmo task (take j (steps llm self)) 1 [] lg = (Exhausted c, l)"
  shows "run_steps clk (clk 0) tmo task (take (Suc j) (steps llm self)) 1 [] lg
           = run_steps clk (clk 0) tmo task [steps llm self ! j] (Suc j) c l"
proof -
  have split: "take (Suc j) (steps llm self) = take j (steps llm self) @ [steps llm self ! j]"
    using assms(1) by (simp add: take_Suc_conv_app_nth steps_length)
  have len: "length (take j (steps llm self)) = j"
    using assms(1) by (simp add: steps_length)
  show ?thesis unfolding split run_steps_append assms(2) len by simp
qed

lemma step_of_run:
  assumes "j < 5" and "j \<le> 4"
    and "run_steps clk (clk 0) tmo task (take j (steps llm self)) 1 [] lg = (Exhausted c, l)"
    and "\<not> real_of_int tmo < clk (Suc j) - clk 0"
  shows "\<exists>p. run_steps clk (clk 0) tmo task (take (Suc j) (steps llm self)) 1 [] lg
             = (case llm (map fst l) (build_messages (snd (steps llm self ! j)) p (if j = 0 then None else Some c)) of
                  Inl e \<Rightarrow> Return (''Error during collaboration: '' @ str e)
                | Inr r \<Rightarrow> if j = 4 then Return r
                          else Exhausted (c @ [\<lparr>role = ''ai'',
                                 content = (if even j then ''History Agent: '' else ''Data Agent: '') @ r\<rparr>]),
                snd (process llm (snd (steps llm self ! j)) p (if j = 0 then None else Some c) l))"
proof -
  have "length c = j" using reached(1)[OF assms(2,3)] .
  then have jc: "j = 0 \<or> c \<noteq> []" by auto
  show ?thesis
    unfolding next_boundary[OF assms(1,3)] process_eq snd_conv
    using run_one[where j = j and c = c and clk = clk and n = "Suc j" and st = "clk 0"
             and tmo = tmo and task = task and llm = llm and self = self and lg = l]
          assms(1) jc assms(4)
    by blast
qed

lemmas step_defs = research_historical_context_def identify_data_needs_def
  provide_historical_data_def analyze_data_def synthesize_final_answer_def

section \<open>Claims\<close>

text \<open>
  C3. \<^verbatim>\<open>Agent.process\<close>, for every task and every context (given or \<^verbatim>\<open>None\<close>)
  whose entries have the role \<^verbatim>\<open>human\<close> or \<^verbatim>\<open>ai\<close>, sends the language model one
  system message built from the template, then every entry of the context in order
  (\<^verbatim>\<open>human\<close> as a human message, \<^verbatim>\<open>ai\<close> as an AI message), then the task as a last
  human message; it makes that one call and returns what the model returned.
\<close>

theorem process_messages:
  assumes "\<forall>msg \<in> set (case ctx of None \<Rightarrow> [] | Some c \<Rightarrow> c). role msg = ''human'' \<or> role msg = ''ai''"
  shows "let sent = [SystemMessage (''You are '' @ name self @ '', a '' @ agent_role self
                       @ ''. Your skills include: '' @ join '', '' (skills self)
                       @ ''. Respond to the task based on your role and skills.'')]
                    @ map to_message (case ctx of None \<Rightarrow> [] | Some c \<Rightarrow> c)
                    @ [HumanMessage task]
         in process llm self task ctx lg = (llm (map fst lg) sent, lg @ [(sent, llm (map fst lg) sent)])"
  using assms
  by (cases ctx) (simp_all add: process_def build_messages_def system_content_def replay_known Let_def)

theorem process_messages_witness:
  "role \<lparr>role = ''human'', content = ''q''\<rparr> = ''human''
   \<and> role \<lparr>role = ''ai'', content = ''a''\<rparr> = ''ai''
   \<and> process (stub [''R'']) (history_agent init) ''t''
        (Some [\<lparr>role = ''human'', content = ''q''\<rparr>, \<lparr>role = ''ai'', content = ''a''\<rparr>]) []
      = (Inr ''R'',
         [([SystemMessage ''You are Clio, a History Research Specialist. Your skills include: deep knowledge of historical events, understanding of historical contexts, identifying historical trends. Respond to the task based on your role and skills.'',
            HumanMessage ''q'', AIMessage ''a'', HumanMessage ''t''], Inr ''R'')])"
  using process_messages[where ctx = "Some [\<lparr>role = ''human'', content = ''q''\<rparr>, \<lparr>role = ''ai'', content = ''a''\<rparr>]"
          and llm = "stub [''R'']" and self = "history_agent init" and task = "''t''" and lg = "[]"]
  by (simp add: init_def to_message_def stub_def Let_def)

text \<open>
  C6. \<^verbatim>\<open>solve\<close> is total: whatever the task, the timeout, the clock and the language
  model do (raising included), it returns a string and no exception reaches the caller.
\<close>

theorem solve_total:
  "\<exists>s lg'. solve llm clk self task timeout lg = (Inr s, lg')"
  by (rule solve_cases[of clk timeout task llm self lg]) blast+

text \<open>
  C10. With the five steps of \<^verbatim>\<open>solve\<close> the code after the loop is never reached:
  \<^verbatim>\<open>synthesize_final_answer\<close> never returns a context, so the loop always ends by a
  \<^verbatim>\<open>return\<close>, and what it returns is the timeout string, an error string, or the text
  of the fifth call to the language model.
\<close>

theorem fallback_unreachable:
  "fst (synthesize_final_answer llm a task c l) \<noteq> Inr (Ctx c') \<and>
   (\<exists>s lg'. run_steps clk (clk 0) timeout task (steps llm self) 1 [] lg = (Return s, lg')
       \<and> solve llm clk self task timeout lg = (Inr s, lg')
       \<and> (s = ''Operation timed out. The process took too long to complete.''
            \<or> (\<exists>e. s = ''Error during collaboration: '' @ str e)
            \<or> (length lg' = length lg + 5 \<and> (\<exists>m. last lg' = (m, Inr s)))))"
proof
  show "fst (synthesize_final_answer llm a task c l) \<noteq> Inr (Ctx c')"
    by (simp add: synthesize_final_answer_def process_eq Let_def split: sum.splits)
  show "\<exists>s lg'. run_steps clk (clk 0) timeout task (steps llm self) 1 [] lg = (Return s, lg')
       \<and> solve llm clk self task timeout lg = (Inr s, lg')
       \<and> (s = ''Operation timed out. The process took too long to complete.''
            \<or> (\<exists>e. s = ''Error during collaboration: '' @ str e)
            \<or> (length lg' = length lg + 5 \<and> (\<exists>m. last lg' = (m, Inr s))))"
  proof (rule solve_cases[of clk timeout task llm self lg])
    fix new
    assume "run_steps clk (clk 0) timeout task (steps llm self) 1 [] lg
         = (Return ''Operation timed out. The process took too long to complete.'', lg @ new)"
      "solve llm clk self task timeout lg
         = (Inr ''Operation timed out. The process took too long to complete.'', lg @ new)"
    then show ?thesis by blast
  next
    fix pre m e
    assume "run_steps clk (clk 0) timeout task (steps llm self) 1 [] lg
         = (Return (''Error during collaboration: '' @ str e), lg @ pre @ [(m, Inl e)])"
      "solve llm clk self task timeout lg
         = (Inr (''Error during collaboration: '' @ str e), lg @ pre @ [(m, Inl e)])"
    then show ?thesis by blast
  next
    fix pre :: log and m r
    assume "run_steps clk (clk 0) timeout task (steps llm self) 1 [] lg = (Return r, lg @ pre @ [(m, Inr r)])"
      "solve llm clk self task timeout lg = (Inr r, lg @ pre @ [(m, Inr r)])"
      "length pre = 4"
    then show ?thesis by simp
  qed
qed


text \<open>
  C1, as amended. For every non-empty task and positive timeout, when no timeout check
  fires (at each of the five checks the elapsed time is at most the timeout) and every
  call the run makes to the language model succeeds: the first four steps leave a
  context \<open>c4\<close> of four entries, the fifth step \<^verbatim>\<open>synthesize_final_answer\<close> makes the
  fifth call on that context and returns the text \<open>r\<close> of its response as a string,
  not as a context with \<open>r\<close> appended, and \<^verbatim>\<open>solve\<close> returns exactly \<open>r\<close>. As the
  claim stands it fails: a positive timeout does not keep the check from firing, and
  then the timeout string is returned.
\<close>

theorem success_returns_fifth_counterexample:
  "fst (solve (stub [''R1'', ''R2'', ''R3'', ''R4'', ''R5'']) (readings [0, 0, 2]) init ''t'' 1 [])
     = Inr ''Operation timed out. The process took too long to complete.''
   \<and> map snd (snd (solve (stub [''R1'', ''R2'', ''R3'', ''R4'', ''R5'']) (readings [0, 0, 2]) init ''t'' 1 []))
     = [Inr ''R1'']
   \<and> fst (solve (stub [''R1'', ''R2'', ''R3'', ''R4'', ''R5'']) (readings [0, 0, 2]) init ''t'' 1 [])
     \<noteq> Inr ''R5''"
  by (simp add: solve_def steps_def step_defs process_eq stub_def readings_def Let_def)

theorem success_returns_fifth:
  assumes "task \<noteq> []" and "0 < timeout"
    and "\<forall>k \<in> {1..5}. clk k - clk 0 \<le> real_of_int timeout"
    and "\<forall>x \<in> set (drop (length lg) (snd (solve llm clk self task timeout lg))). \<exists>r. snd x = Inr r"
  shows "\<exists>c4 l4 m r.
           run_steps clk (clk 0) timeout task (take 4 (steps llm self)) 1 [] lg = (Exhausted c4, l4)
         \<and> length c4 = 4 \<and> length l4 = length lg + 4
         \<and> m = build_messages (history_agent self)
                 ''Based on all the historical context, data, and analysis, provide a comprehensive answer to the original task.''
                 (Some c4)
         \<and> synthesize_final_answer llm (history_agent self) task c4 l4
             = (Inr (Str r), l4 @ [(m, Inr r)])
         \<and> solve llm clk self task timeout lg = (Inr r, l4 @ [(m, Inr r)])"
proof -
  let ?R4 = "run_steps clk (clk 0) timeout task (take 4 (steps llm self)) 1 [] lg"
  let ?T = "\<lambda>k. real_of_int timeout < clk k - clk 0"
  have nt: "\<not> ?T k" if "1 \<le> k" "k \<le> 5" for k :: nat
  proof -
    from that have "k \<in> {1..5}" by simp
    with assms(3) have "clk k - clk 0 \<le> real_of_int timeout" by blast
    then show ?thesis by simp
  qed
  obtain x l4 where R4: "?R4 = (x, l4)" by (cases ?R4)
  have "(4::nat) \<le> 5" by simp
  note inv = run_inv[OF this, of clk timeout task llm self lg, unfolded R4 fst_conv snd_conv]
  from inv obtain new where
    new: "l4 = lg @ new"
    and cs0: "case x of
                 Exhausted c \<Rightarrow> (4::nat) \<le> 4 \<and> length c = 4 \<and> length new = 4 \<and> (\<forall>x \<in> set new. \<not> isl (snd x))
               | Return s \<Rightarrow>
                   (s = ''Operation timed out. The process took too long to complete.''
                      \<and> ?T (Suc (length new)) \<and> length new < 4
                      \<and> (\<forall>x \<in> set new. \<not> isl (snd x)))
                   \<or> (\<exists>pre m e. new = pre @ [(m, Inl e)] \<and> (\<forall>x \<in> set pre. \<not> isl (snd x))
                         \<and> s = ''Error during collaboration: '' @ str e)
                   \<or> ((4::nat) = 5 \<and> length new = 5 \<and> (\<forall>x \<in> set new. \<not> isl (snd x))
                         \<and> (\<exists>m. last new = (m, Inr s)))"
    by blast
  show ?thesis
  proof (cases x)
    case (Return s)
    from prefix_return[OF R4[unfolded Return]]
    have "solve llm clk self task timeout lg = (Inr s, l4)" by (rule solve_from_run)
    then have S: "snd (solve llm clk self task timeout lg) = lg @ new" using new by simp
    from cs0 have "(?T (Suc (length new)) \<and> length new < 4) \<or> (\<exists>pre m e. new = pre @ [(m, Inl e)])"
      unfolding Return loop_exit.case by auto
    then consider "?T (Suc (length new))" "length new < 4"
      | pre m e where "new = pre @ [(m, Inl e)]" by blast
    then show ?thesis
    proof cases
      case 1
      then show ?thesis using nt[of "Suc (length new)"] by simp
    next
      case 2
      then show ?thesis using assms(4) unfolding S by simp
    qed
  next
    case (Exhausted c4)
    with cs0 have len: "length c4 = 4" "length new = 4" by simp_all
    have R: "run_steps clk (clk 0) timeout task (take (5 - 1) (steps llm self)) 1 [] lg = (Exhausted c4, l4)"
      using R4 Exhausted by simp
    have "(1::nat) \<le> 5" "(5::nat) \<le> 5" by simp_all
    note fb = from_boundary[OF this R]
    define m where "m = build_messages (history_agent self)
                 ''Based on all the historical context, data, and analysis, provide a comprehensive answer to the original task.''
                 (Some c4)"
    have syn: "synthesize_final_answer llm (history_agent self) task c4 l4
                 = (case llm (map fst l4) m of
                      Inl e \<Rightarrow> (Inl e, l4 @ [(m, Inl e)])
                    | Inr r \<Rightarrow> (Inr (Str r), l4 @ [(m, Inr r)]))"
      unfolding synthesize_final_answer_def process_eq Let_def m_def
      by (simp split: sum.splits)
    have run: "run_steps clk (clk 0) timeout task (steps llm self) 1 [] lg
                 = (case synthesize_final_answer llm (history_agent self) task c4 l4 of
                      (Inl e, lg') \<Rightarrow> (Return (''Error during collaboration: '' @ str e), lg')
                    | (Inr (Str s), lg') \<Rightarrow> (Return s, lg')
                    | (Inr (Ctx c), lg') \<Rightarrow> (Exhausted c, lg'))"
      unfolding fb using nt[of 5]
      by (simp add: steps_def split: prod.splits sum.splits result.splits)
    show ?thesis
    proof (cases "llm (map fst l4) m")
      case (Inl e)
      have "run_steps clk (clk 0) timeout task (steps llm self) 1 [] lg
              = (Return (''Error during collaboration: '' @ str e), l4 @ [(m, Inl e)])"
        unfolding run syn Inl by simp
      then have "snd (solve llm clk self task timeout lg) = lg @ new @ [(m, Inl e)]"
        unfolding solve_log new by simp
      then show ?thesis using assms(4) by simp
    next
      case (Inr r)
      have s: "synthesize_final_answer llm (history_agent self) task c4 l4
                 = (Inr (Str r), l4 @ [(m, Inr r)])"
        unfolding syn Inr by simp
      have "run_steps clk (clk 0) timeout task (steps llm self) 1 [] lg = (Return r, l4 @ [(m, Inr r)])"
        unfolding run s by simp
      then have "solve llm clk self task timeout lg = (Inr r, l4 @ [(m, Inr r)])"
        by (rule solve_from_run)
      then show ?thesis
        using R4 Exhausted len new s m_def by auto
    qed
  qed
qed

theorem success_returns_fifth_witness:
  "''t'' \<noteq> [] \<and> (0::int) < 1
   \<and> fst (run_steps (readings [0]) (readings [0] 0) 1 ''t''
            (take 4 (steps (stub [''R1'', ''R2'', ''R3'', ''R4'', ''R5'']) init)) 1 [] [])
       = Exhausted [\<lparr>role = ''ai'', content = ''History Agent: R1''\<rparr>,
                    \<lparr>role = ''ai'', content = ''Data Agent: R2''\<rparr>,
                    \<lparr>role = ''ai'', content = ''History Agent: R3''\<rparr>,
                    \<lparr>role = ''ai'', content = ''Data Agent: R4''\<rparr>]
   \<and> fst (solve (stub [''R1'', ''R2'', ''R3'', ''R4'', ''R5'']) (readings [0]) init ''t'' 1 []) = Inr ''R5''
   \<and> map snd (snd (solve (stub [''R1'', ''R2'', ''R3'', ''R4'', ''R5'']) (readings [0]) init ''t'' 1 []))
       = [Inr ''R1'', Inr ''R2'', Inr ''R3'', Inr ''R4'', Inr ''R5'']"
  using success_returns_fifth[where task = "''t''" and timeout = 1 and clk = "readings [0]" and lg = "[]"
          and llm = "stub [''R1'', ''R2'', ''R3'', ''R4'', ''R5'']" and self = init]
  by (simp add: solve_def steps_def step_defs process_eq stub_def readings_def Let_def)

text \<open>
  C4. If the \<open>i\<close>-th call that a run of \<^verbatim>\<open>solve\<close> makes to the language model raises
  \<open>e\<close>, then \<^verbatim>\<open>solve\<close> returns \<^verbatim>\<open>"Error during collaboration: "\<close> followed by
  \<^verbatim>\<open>str(e)\<close> and nothing else, the run makes exactly \<open>i\<close> calls (none after the failure),
  the \<open>i - 1\<close> calls before it succeeded, and the log it started from is kept.
\<close>

theorem failure_short_circuit:
  assumes "1 \<le> i"
    and "length lg + i \<le> length (snd (solve llm clk self task timeout lg))"
    and "snd (snd (solve llm clk self task timeout lg) ! (length lg + i - 1)) = Inl e"
  shows "fst (solve llm clk self task timeout lg) = Inr (''Error during collaboration: '' @ str e)
       \<and> length (snd (solve llm clk self task timeout lg)) = length lg + i
       \<and> take (length lg) (snd (solve llm clk self task timeout lg)) = lg
       \<and> (\<forall>j < i - 1. \<exists>r. snd (snd (solve llm clk self task timeout lg) ! (length lg + j)) = Inr r)"
proof -
  have idx: "length lg + i - 1 = length lg + (i - 1)" using assms(1) by simp
  have at_new: "\<And>new. snd ((lg @ new) ! (length lg + i - 1)) = snd (new ! (i - 1))"
    unfolding idx by simp
  show ?thesis
  proof (rule solve_cases[of clk timeout task llm self lg])
  fix new
  assume S: "solve llm clk self task timeout lg
         = (Inr ''Operation timed out. The process took too long to complete.'', lg @ new)"
    and ok: "\<forall>x \<in> set new. \<not> isl (snd x)"
  from assms(1,2) have "i - 1 < length new" by (simp add: S)
  then have "\<not> isl (snd (new ! (i - 1)))" using ok by simp
  moreover have "snd (new ! (i - 1)) = Inl e"
    using assms(3) at_new by (simp add: S)
  ultimately show ?thesis by simp
next
  fix pre :: log and m r
  assume S: "solve llm clk self task timeout lg = (Inr r, lg @ pre @ [(m, Inr r)])"
    and ok: "\<forall>x \<in> set pre. \<not> isl (snd x)"
  have ok': "\<forall>x \<in> set (pre @ [(m, Inr r)]). \<not> isl (snd x)" using ok by simp
  from assms(1,2) have "i - 1 < length (pre @ [(m, Inr r)])" by (simp add: S)
  then have "\<not> isl (snd ((pre @ [(m, Inr r)]) ! (i - 1)))" using ok' nth_mem by blast
  moreover have "snd ((pre @ [(m, Inr r)]) ! (i - 1)) = Inl e"
    using assms(3) at_new by (simp add: S)
  ultimately show ?thesis by simp
next
  fix pre :: log and m e'
  assume S: "solve llm clk self task timeout lg
         = (Inr (''Error during collaboration: '' @ str e'), lg @ pre @ [(m, Inl e')])"
    and ok: "\<forall>x \<in> set pre. \<not> isl (snd x)"
  from assms(1,2) have le: "i - 1 \<le> length pre" by (simp add: S)
  have at: "snd ((pre @ [(m, Inl e')]) ! (i - 1)) = Inl e"
    using assms(3) at_new by (simp add: S)
  have i: "i - 1 = length pre"
  proof (rule ccontr)
    assume "i - 1 \<noteq> length pre"
    with le have lt: "i - 1 < length pre" by simp
    then have "\<not> isl (snd (pre ! (i - 1)))" using ok by simp
    then show False using at lt by (simp add: nth_append)
  qed
  then have e: "e' = e" using at by simp
  have "\<forall>j < i - 1. \<exists>r. snd ((lg @ pre @ [(m, Inl e')]) ! (length lg + j)) = Inr r"
  proof (intro allI impI)
    fix j assume "j < i - 1"
    then have lt: "j < length pre" using i by simp
    then have "\<not> isl (snd (pre ! j))" using ok by simp
    then obtain r where "snd (pre ! j) = Inr r" by (cases "snd (pre ! j)") simp_all
    then show "\<exists>r. snd ((lg @ pre @ [(m, Inl e')]) ! (length lg + j)) = Inr r"
      using lt by (simp add: nth_append)
  qed
  then show ?thesis using i e assms(1) by (simp add: S)
qed
qed

theorem failure_short_circuit_witness:
  "fst (solve (failing_stub [''R1'', ''R2'', ''R3'', ''R4'', ''R5''] 2 ''boom'') (readings [0]) init ''t'' 300 [])
     = Inr ''Error during collaboration: boom''
   \<and> map snd (snd (solve (failing_stub [''R1'', ''R2'', ''R3'', ''R4'', ''R5''] 2 ''boom'') (readings [0]) init ''t'' 300 []))
     = [Inr ''R1'', Inr ''R2'', Inl (Exception ''boom'')]"
  using failure_short_circuit[where i = 3 and lg = "[]" and e = "Exception ''boom''"
          and llm = "failing_stub [''R1'', ''R2'', ''R3'', ''R4'', ''R5''] 2 ''boom''"
          and clk = "readings [0]" and self = init and task = "''t''" and timeout = 300]
  by (simp add: solve_def steps_def step_defs process_eq stub_def failing_stub_def readings_def Let_def)

text \<open>
  C5. When the loop is at the check before step \<open>k\<close> (the first \<open>k - 1\<close> steps have
  completed, leaving the context \<open>c\<close> and the log \<open>l\<close>) and the elapsed time is above the
  timeout, \<^verbatim>\<open>solve\<close> returns the fixed timeout string and the log stays \<open>l\<close>: no call
  for step \<open>k\<close> or a later step. When the check passes, the call of step \<open>k\<close> is made
  and recorded with its outcome, whatever the clock reads afterwards.
\<close>

theorem timeout_short_circuit:
  assumes "1 \<le> k" and "k \<le> 5"
    and "run_steps clk (clk 0) timeout task (take (k - 1) (steps llm self)) 1 [] lg = (Exhausted c, l)"
  shows "(real_of_int timeout < clk k - clk 0 \<longrightarrow>
            solve llm clk self task timeout lg
              = (Inr ''Operation timed out. The process took too long to complete.'', l))
       \<and> (\<not> real_of_int timeout < clk k - clk 0 \<longrightarrow>
            (\<exists>m r ext. snd (solve llm clk self task timeout lg) = l @ (m, r) # ext))"
  using timeout_at_boundary[OF assms] step_at_boundary[OF assms] by blast

theorem timeout_short_circuit_witness:
  "solve (stub [''R1'', ''R2'', ''R3'', ''R4'', ''R5'']) (readings [0, 0, 2]) init ''t'' 1 []
     = (Inr ''Operation timed out. The process took too long to complete.'',
        [(build_messages (history_agent init)
            ''Provide relevant historical context and information for the following task: t'' None,
          Inr ''R1'')])
   \<and> (\<exists>m r ext. snd (solve (stub [''R1'', ''R2'', ''R3'', ''R4'', ''R5'']) (readings [0, 0, 1]) init ''t'' 1 [])
         = [(build_messages (history_agent init)
               ''Provide relevant historical context and information for the following task: t'' None,
             Inr ''R1'')] @ (m, r) # ext)"
  using timeout_short_circuit[where k = 2 and clk = "readings [0, 0, 2]" and timeout = 1
          and task = "''t''" and llm = "stub [''R1'', ''R2'', ''R3'', ''R4'', ''R5'']" and self = init
          and lg = "[]" and c = "[\<lparr>role = ''ai'', content = ''History Agent: R1''\<rparr>]"
          and l = "[(build_messages (history_agent init)
            ''Provide relevant historical context and information for the following task: t'' None,
          Inr ''R1'')]"]
        timeout_short_circuit[where k = 2 and clk = "readings [0, 0, 1]" and timeout = 1
          and task = "''t''" and llm = "stub [''R1'', ''R2'', ''R3'', ''R4'', ''R5'']" and self = init
          and lg = "[]" and c = "[\<lparr>role = ''ai'', content = ''History Agent: R1''\<rparr>]"
          and l = "[(build_messages (history_agent init)
            ''Provide relevant historical context and information for the following task: t'' None,
          Inr ''R1'')]"]
  by (simp add: steps_def step_defs process_eq stub_def readings_def Let_def)

text \<open>
  C9. The comparison is strict. At the check before step \<open>k\<close>, with the context \<open>c\<close>
  and the log \<open>l\<close> the first \<open>k - 1\<close> steps have left, \<^verbatim>\<open>solve\<close> stops with the
  timeout string exactly when the elapsed time is greater than the timeout. When it
  equals the timeout, step \<open>k\<close> runs: the log of \<^verbatim>\<open>solve\<close> starts with the log that
  the \<open>k\<close>-th step function leaves when run on its agent, the task, \<open>c\<close> and \<open>l\<close>,
  which is \<open>l\<close> with the one call of \<^verbatim>\<open>Agent.process\<close> the step makes. With a
  timeout of zero and a first check that measures zero, the first step's call to the
  language model, on the prompt built from the task, is made.
\<close>

theorem timeout_strict:
  "(1 \<le> k \<and> k \<le> 5
      \<and> run_steps clk (clk 0) timeout task (take (k - 1) (steps llm self)) 1 [] lg = (Exhausted c, l)
     \<longrightarrow> ((solve llm clk self task timeout lg
              = (Inr ''Operation timed out. The process took too long to complete.'', l))
            = (real_of_int timeout < clk k - clk 0))
         \<and> (clk k - clk 0 = real_of_int timeout \<longrightarrow>
              (\<exists>p ext.
                 snd (fst (steps llm self ! (k - 1)) (snd (steps llm self ! (k - 1))) task c l)
                   = snd (process llm (snd (steps llm self ! (k - 1))) p
                            (if k = 1 then None else Some c) l)
               \<and> snd (solve llm clk self task timeout lg)
                   = snd (fst (steps llm self ! (k - 1)) (snd (steps llm self ! (k - 1))) task c l)
                       @ ext)))
   \<and> (clk 1 - clk 0 = 0 \<longrightarrow>
        (\<exists>ext. snd (solve llm clk self task 0 lg)
                 = snd (process llm (history_agent self)
                          (''Provide relevant historical context and information for the following task: ''
                             @ task) None lg) @ ext))"
proof (intro conjI impI)
  assume "1 \<le> k \<and> k \<le> 5
      \<and> run_steps clk (clk 0) timeout task (take (k - 1) (steps llm self)) 1 [] lg = (Exhausted c, l)"
  then have b: "1 \<le> k" "k \<le> 5"
    "run_steps clk (clk 0) timeout task (take (k - 1) (steps llm self)) 1 [] lg = (Exhausted c, l)"
    by simp_all
  show "(solve llm clk self task timeout lg
            = (Inr ''Operation timed out. The process took too long to complete.'', l))
          = (real_of_int timeout < clk k - clk 0)"
  proof (cases "real_of_int timeout < clk k - clk 0")
    case True
    then show ?thesis using timeout_at_boundary[OF b] by simp
  next
    case False
    from step_at_boundary[OF b False] obtain m r ext where
      "snd (solve llm clk self task timeout lg) = l @ (m, r) # ext" by blast
    then have "snd (solve llm clk self task timeout lg) \<noteq> l" by simp
    then have "solve llm clk self task timeout lg
            \<noteq> (Inr ''Operation timed out. The process took too long to complete.'', l)"
      by auto
    then show ?thesis using False by simp
  qed
  assume "clk k - clk 0 = real_of_int timeout"
  then have "\<not> real_of_int timeout < clk k - clk 0" by simp
  from step_pinned[OF b this]
  show "\<exists>p ext.
                 snd (fst (steps llm self ! (k - 1)) (snd (steps llm self ! (k - 1))) task c l)
                   = snd (process llm (snd (steps llm self ! (k - 1))) p
                            (if k = 1 then None else Some c) l)
               \<and> snd (solve llm clk self task timeout lg)
                   = snd (fst (steps llm self ! (k - 1)) (snd (steps llm self ! (k - 1))) task c l)
                       @ ext" .
next
  assume "clk 1 - clk 0 = 0"
  then have nt: "\<not> real_of_int 0 < clk 1 - clk 0" by simp
  have r: "run_steps clk (clk 0) 0 task (take (1 - 1) (steps llm self)) 1 [] lg = (Exhausted [], lg)"
    by simp
  have "(1::nat) \<le> 1" "(1::nat) \<le> 5" by simp_all
  from step_pinned[OF this r nt] obtain ext where
    "snd (solve llm clk self task 0 lg)
       = snd (fst (steps llm self ! (1 - 1)) (snd (steps llm self ! (1 - 1))) task [] lg) @ ext"
    by blast
  then have "snd (solve llm clk self task 0 lg)
       = snd (research_historical_context llm (history_agent self) task [] lg) @ ext"
    by (simp add: steps_def)
  moreover have "snd (research_historical_context llm (history_agent self) task [] lg)
      = snd (process llm (history_agent self)
                          (''Provide relevant historical context and information for the following task: ''
                             @ task) None lg)"
    unfolding research_historical_context_def process_eq Let_def
    by (simp split: sum.splits)
  ultimately show "\<exists>ext. snd (solve llm clk self task 0 lg)
                 = snd (process llm (history_agent self)
                          (''Provide relevant historical context and information for the following task: ''
                             @ task) None lg) @ ext"
    by auto
qed

theorem timeout_strict_witness:
  "readings [5, 5] 1 - readings [5, 5] 0 = 0
   \<and> (\<exists>ext. snd (solve (stub [''R1'', ''R2'', ''R3'', ''R4'', ''R5'']) (readings [5, 5]) init ''t'' 0 [])
              = [(build_messages (history_agent init)
                    ''Provide relevant historical context and information for the following task: t'' None,
                  Inr ''R1'')] @ ext)
   \<and> readings [0, 0, 0, 7] 3 - readings [0, 0, 0, 7] 0 = real_of_int 7
   \<and> fst (run_steps (readings [0, 0, 0, 7]) (readings [0, 0, 0, 7] 0) 7 ''t''
            (take (3 - 1) (steps (stub [''R1'', ''R2'', ''R3'', ''R4'', ''R5'']) init)) 1 [] [])
       = Exhausted [\<lparr>role = ''ai'', content = ''History Agent: R1''\<rparr>,
                    \<lparr>role = ''ai'', content = ''Data Agent: R2''\<rparr>]
   \<and> (\<exists>ext. snd (solve (stub [''R1'', ''R2'', ''R3'', ''R4'', ''R5'']) (readings [0, 0, 0, 7]) init ''t'' 7 [])
              = snd (provide_historical_data (stub [''R1'', ''R2'', ''R3'', ''R4'', ''R5'']) (history_agent init) ''t''
                       [\<lparr>role = ''ai'', content = ''History Agent: R1''\<rparr>,
                        \<lparr>role = ''ai'', content = ''Data Agent: R2''\<rparr>]
                       (snd (run_steps (readings [0, 0, 0, 7]) (readings [0, 0, 0, 7] 0) 7 ''t''
                               (take (3 - 1) (steps (stub [''R1'', ''R2'', ''R3'', ''R4'', ''R5'']) init)) 1 [] []))) @ ext)
   \<and> map snd (snd (solve (stub [''R1'', ''R2'', ''R3'', ''R4'', ''R5'']) (readings [0, 0, 0, 7]) init ''t'' 7 []))
       = [Inr ''R1'', Inr ''R2'', Inr ''R3'', Inr ''R4'', Inr ''R5'']"
  using timeout_strict[where k = 1 and clk = "readings [5, 5]" and timeout = 0
          and task = "''t''" and llm = "stub [''R1'', ''R2'', ''R3'', ''R4'', ''R5'']" and self = init
          and lg = "[]" and c = "[]" and l = "[]"]
        timeout_strict[where k = 3 and clk = "readings [0, 0, 0, 7]" and timeout = 7
          and task = "''t''" and llm = "stub [''R1'', ''R2'', ''R3'', ''R4'', ''R5'']" and self = init
          and lg = "[]"
          and c = "[\<lparr>role = ''ai'', content = ''History Agent: R1''\<rparr>,
                    \<lparr>role = ''ai'', content = ''Data Agent: R2''\<rparr>]"
          and l = "snd (run_steps (readings [0, 0, 0, 7]) (readings [0, 0, 0, 7] 0) 7 ''t''
                         (take (3 - 1) (steps (stub [''R1'', ''R2'', ''R3'', ''R4'', ''R5'']) init)) 1 [] [])"]
  by (simp add: solve_def steps_def step_defs process_eq stub_def readings_def Let_def)

text \<open>
  C2. The context only grows, one entry at a time. Each of the first four step
  functions either raises or returns its context with exactly one entry appended (the
  entries it was given are kept, in order); \<^verbatim>\<open>synthesize_final_answer\<close> either raises
  or returns a string, so it appends nothing. In a run of \<^verbatim>\<open>solve\<close>, when the first
  \<open>j\<close> steps (\<open>j \<le> 4\<close>) have completed the context has exactly \<open>j\<close> entries (four after
  steps 1 to 4), and the context after step \<open>j + 1\<close> is the context after step \<open>j\<close>
  with one entry appended.
\<close>

theorem transcript_append_only:
  "((\<exists>e. fst (research_historical_context llm a task c l) = Inl e)
      \<or> (\<exists>t. fst (research_historical_context llm a task c l) = Inr (Ctx (c @ [t]))))
   \<and> ((\<exists>e. fst (identify_data_needs llm a task c l) = Inl e)
      \<or> (\<exists>t. fst (identify_data_needs llm a task c l) = Inr (Ctx (c @ [t]))))
   \<and> ((\<exists>e. fst (provide_historical_data llm a task c l) = Inl e)
      \<or> (\<exists>t. fst (provide_historical_data llm a task c l) = Inr (Ctx (c @ [t]))))
   \<and> ((\<exists>e. fst (analyze_data llm a task c l) = Inl e)
      \<or> (\<exists>t. fst (analyze_data llm a task c l) = Inr (Ctx (c @ [t]))))
   \<and> ((\<exists>e. fst (synthesize_final_answer llm a task c l) = Inl e)
      \<or> (\<exists>s. fst (synthesize_final_answer llm a task c l) = Inr (Str s)))
   \<and> (j \<le> 4 \<and> run_steps clk (clk 0) timeout task (take j (steps llm self)) 1 [] lg = (Exhausted cj, lj)
        \<longrightarrow> length cj = j)
   \<and> (j < 4 \<and> run_steps clk (clk 0) timeout task (take j (steps llm self)) 1 [] lg = (Exhausted cj, lj)
         \<and> run_steps clk (clk 0) timeout task (take (Suc j) (steps llm self)) 1 [] lg = (Exhausted c', l')
        \<longrightarrow> (\<exists>t. c' = cj @ [t]))"
proof (intro conjI impI)
  show "(\<exists>e. fst (research_historical_context llm a task c l) = Inl e)
      \<or> (\<exists>t. fst (research_historical_context llm a task c l) = Inr (Ctx (c @ [t])))"
    by (cases "llm (map fst l) (build_messages a
          (''Provide relevant historical context and information for the following task: '' @ task) None)")
       (simp_all add: research_historical_context_def process_eq Let_def)
  show "(\<exists>e. fst (identify_data_needs llm a task c l) = Inl e)
      \<or> (\<exists>t. fst (identify_data_needs llm a task c l) = Inr (Ctx (c @ [t])))"
    by (simp add: identify_data_needs_def process_eq Let_def split: sum.splits)
  show "(\<exists>e. fst (provide_historical_data llm a task c l) = Inl e)
      \<or> (\<exists>t. fst (provide_historical_data llm a task c l) = Inr (Ctx (c @ [t])))"
    by (simp add: provide_historical_data_def process_eq Let_def split: sum.splits)
  show "(\<exists>e. fst (analyze_data llm a task c l) = Inl e)
      \<or> (\<exists>t. fst (analyze_data llm a task c l) = Inr (Ctx (c @ [t])))"
    by (simp add: analyze_data_def process_eq Let_def split: sum.splits)
  show "(\<exists>e. fst (synthesize_final_answer llm a task c l) = Inl e)
      \<or> (\<exists>s. fst (synthesize_final_answer llm a task c l) = Inr (Str s))"
    by (simp add: synthesize_final_answer_def process_eq Let_def split: sum.splits)
next
  assume "j \<le> 4 \<and> run_steps clk (clk 0) timeout task (take j (steps llm self)) 1 [] lg = (Exhausted cj, lj)"
  then show "length cj = j" using reached(1) by blast
next
  assume h: "j < 4 \<and> run_steps clk (clk 0) timeout task (take j (steps llm self)) 1 [] lg = (Exhausted cj, lj)
         \<and> run_steps clk (clk 0) timeout task (take (Suc j) (steps llm self)) 1 [] lg = (Exhausted c', l')"
  then have j: "j < 5" "j \<le> 4" "j \<noteq> 4" by simp_all
  from h have r: "run_steps clk (clk 0) timeout task (take j (steps llm self)) 1 [] lg = (Exhausted cj, lj)"
    and r': "run_steps clk (clk 0) timeout task (take (Suc j) (steps llm self)) 1 [] lg = (Exhausted c', l')"
    by simp_all
  have nt: "\<not> real_of_int timeout < clk (Suc j) - clk 0"
  proof
    assume "real_of_int timeout < clk (Suc j) - clk 0"
    then have "run_steps clk (clk 0) timeout task [steps llm self ! j] (Suc j) cj lj
                 = (Return ''Operation timed out. The process took too long to complete.'', lj)"
      by (cases "steps llm self ! j") simp
    then show False using r' unfolding next_boundary[OF j(1) r] by simp
  qed
  from step_of_run[OF j(1,2) r nt] obtain p where
    "(Exhausted c', l') = (case llm (map fst lj) (build_messages (snd (steps llm self ! j)) p (if j = 0 then None else Some cj)) of
                  Inl e \<Rightarrow> Return (''Error during collaboration: '' @ str e)
                | Inr r \<Rightarrow> if j = 4 then Return r
                          else Exhausted (cj @ [\<lparr>role = ''ai'',
                                 content = (if even j then ''History Agent: '' else ''Data Agent: '') @ r\<rparr>]),
                snd (process llm (snd (steps llm self ! j)) p (if j = 0 then None else Some cj) lj))"
    unfolding r' by blast
  then show "\<exists>t. c' = cj @ [t]"
    using j(3) by (auto split: sum.splits)
qed

theorem transcript_append_only_witness:
  "fst (run_steps (readings [0]) (readings [0] 0) 300 ''t''
          (take 3 (steps (stub [''R1'', ''R2'', ''R3'', ''R4'', ''R5'']) init)) 1 [] [])
     = Exhausted [\<lparr>role = ''ai'', content = ''History Agent: R1''\<rparr>,
                  \<lparr>role = ''ai'', content = ''Data Agent: R2''\<rparr>,
                  \<lparr>role = ''ai'', content = ''History Agent: R3''\<rparr>]
   \<and> fst (run_steps (readings [0]) (readings [0] 0) 300 ''t''
          (take 4 (steps (stub [''R1'', ''R2'', ''R3'', ''R4'', ''R5'']) init)) 1 [] [])
     = Exhausted [\<lparr>role = ''ai'', content = ''History Agent: R1''\<rparr>,
                  \<lparr>role = ''ai'', content = ''Data Agent: R2''\<rparr>,
                  \<lparr>role = ''ai'', content = ''History Agent: R3''\<rparr>,
                  \<lparr>role = ''ai'', content = ''Data Agent: R4''\<rparr>]
   \<and> length [\<lparr>role = ''ai'', content = ''History Agent: R1''\<rparr>,
              \<lparr>role = ''ai'', content = ''Data Agent: R2''\<rparr>,
              \<lparr>role = ''ai'', content = ''History Agent: R3''\<rparr>,
              \<lparr>role = ''ai'', content = ''Data Agent: R4''\<rparr>] = (4::nat)
   \<and> (\<exists>t. [\<lparr>role = ''ai'', content = ''History Agent: R1''\<rparr>,
              \<lparr>role = ''ai'', content = ''Data Agent: R2''\<rparr>,
              \<lparr>role = ''ai'', content = ''History Agent: R3''\<rparr>,
              \<lparr>role = ''ai'', content = ''Data Agent: R4''\<rparr>]
           = [\<lparr>role = ''ai'', content = ''History Agent: R1''\<rparr>,
              \<lparr>role = ''ai'', content = ''Data Agent: R2''\<rparr>,
              \<lparr>role = ''ai'', content = ''History Agent: R3''\<rparr>] @ [t])"
  using transcript_append_only[where j = 3 and clk = "readings [0]" and timeout = 300 and task = "''t''"
          and llm = "stub [''R1'', ''R2'', ''R3'', ''R4'', ''R5'']" and self = init and lg = "[]"
          and cj = "[\<lparr>role = ''ai'', content = ''History Agent: R1''\<rparr>,
                     \<lparr>role = ''ai'', content = ''Data Agent: R2''\<rparr>,
                     \<lparr>role = ''ai'', content = ''History Agent: R3''\<rparr>]"
          and lj = "snd (run_steps (readings [0]) (readings [0] 0) 300 ''t''
                      (take 3 (steps (stub [''R1'', ''R2'', ''R3'', ''R4'', ''R5'']) init)) 1 [] [])"
          and c' = "[\<lparr>role = ''ai'', content = ''History Agent: R1''\<rparr>,
                     \<lparr>role = ''ai'', content = ''Data Agent: R2''\<rparr>,
                     \<lparr>role = ''ai'', content = ''History Agent: R3''\<rparr>,
                     \<lparr>role = ''ai'', content = ''Data Agent: R4''\<rparr>]"
          and l' = "snd (run_steps (readings [0]) (readings [0] 0) 300 ''t''
                      (take 4 (steps (stub [''R1'', ''R2'', ''R3'', ''R4'', ''R5'']) init)) 1 [] [])"]
        transcript_append_only[where j = 4 and clk = "readings [0]" and timeout = 300 and task = "''t''"
          and llm = "stub [''R1'', ''R2'', ''R3'', ''R4'', ''R5'']" and self = init and lg = "[]"
          and cj = "[\<lparr>role = ''ai'', content = ''History Agent: R1''\<rparr>,
                     \<lparr>role = ''ai'', content = ''Data Agent: R2''\<rparr>,
                     \<lparr>role = ''ai'', content = ''History Agent: R3''\<rparr>,
                     \<lparr>role = ''ai'', content = ''Data Agent: R4''\<rparr>]"
          and lj = "snd (run_steps (readings [0]) (readings [0] 0) 300 ''t''
                      (take 4 (steps (stub [''R1'', ''R2'', ''R3'', ''R4'', ''R5'']) init)) 1 [] [])"]
  by (simp add: steps_def step_defs process_eq stub_def readings_def Let_def)

text \<open>
  C8. A step that \<^verbatim>\<open>solve\<close> executes makes exactly one call to the language model:
  when the loop is at the check before step \<open>k\<close> with context \<open>c\<close> and log \<open>l\<close> and the
  check passes, the log after step \<open>k\<close> is \<open>l\<close> with the one call of
  \<^verbatim>\<open>Agent.process\<close> on the step's agent, which gets no context in step 1 and the
  context accumulated so far in steps 2 to 5. A run in which no check fires and every
  call succeeds makes exactly five calls.
\<close>

theorem one_call_per_step:
  "(1 \<le> k \<and> k \<le> 5
      \<and> run_steps clk (clk 0) timeout task (take (k - 1) (steps llm self)) 1 [] lg = (Exhausted c, l)
      \<and> \<not> real_of_int timeout < clk k - clk 0
     \<longrightarrow> (\<exists>p. snd (run_steps clk (clk 0) timeout task (take k (steps llm self)) 1 [] lg)
                = snd (process llm (snd (steps llm self ! (k - 1))) p (if k = 1 then None else Some c) l))
         \<and> length (snd (run_steps clk (clk 0) timeout task (take k (steps llm self)) 1 [] lg))
             = length l + 1)
   \<and> ((\<forall>k \<in> {1..5}. clk k - clk 0 \<le> real_of_int timeout)
      \<and> (\<forall>x \<in> set (drop (length lg) (snd (solve llm clk self task timeout lg))). \<exists>r. snd x = Inr r)
     \<longrightarrow> length (snd (solve llm clk self task timeout lg)) = length lg + 5)"
proof (intro conjI impI)
  assume h: "1 \<le> k \<and> k \<le> 5
      \<and> run_steps clk (clk 0) timeout task (take (k - 1) (steps llm self)) 1 [] lg = (Exhausted c, l)
      \<and> \<not> real_of_int timeout < clk k - clk 0"
  then have k: "Suc (k - 1) = k" "k - 1 < 5" "k - 1 \<le> 4" "(k - 1 = 0) = (k = 1)" by auto
  from h have r: "run_steps clk (clk 0) timeout task (take (k - 1) (steps llm self)) 1 [] lg = (Exhausted c, l)"
    and nt: "\<not> real_of_int timeout < clk (Suc (k - 1)) - clk 0"
    unfolding k by simp_all
  from step_of_run[OF k(2,3) r nt] obtain p where
    p: "snd (run_steps clk (clk 0) timeout task (take k (steps llm self)) 1 [] lg)
          = snd (process llm (snd (steps llm self ! (k - 1))) p (if k = 1 then None else Some c) l)"
    unfolding k by auto
  then show "\<exists>p. snd (run_steps clk (clk 0) timeout task (take k (steps llm self)) 1 [] lg)
                = snd (process llm (snd (steps llm self ! (k - 1))) p (if k = 1 then None else Some c) l)"
    by blast
  show "length (snd (run_steps clk (clk 0) timeout task (take k (steps llm self)) 1 [] lg)) = length l + 1"
    unfolding p by (simp add: process_eq)
next
  assume h: "(\<forall>k \<in> {1..5}. clk k - clk 0 \<le> real_of_int timeout)
      \<and> (\<forall>x \<in> set (drop (length lg) (snd (solve llm clk self task timeout lg))). \<exists>r. snd x = Inr r)"
  show "length (snd (solve llm clk self task timeout lg)) = length lg + 5"
  proof (rule solve_cases[of clk timeout task llm self lg])
    fix new :: log
    assume "length new < 5" "real_of_int timeout < clk (Suc (length new)) - clk 0"
    moreover from this(1) have "Suc (length new) \<in> {1..5}" by simp
    ultimately show ?thesis using h by fastforce
  next
    fix pre :: log and m e
    assume S: "solve llm clk self task timeout lg
         = (Inr (''Error during collaboration: '' @ str e), lg @ pre @ [(m, Inl e)])"
    show ?thesis using h by (simp add: S)
  next
    fix pre :: log and m r
    assume "solve llm clk self task timeout lg = (Inr r, lg @ pre @ [(m, Inr r)])" "length pre = 4"
    then show ?thesis by simp
  qed
qed

theorem one_call_per_step_witness:
  "snd (run_steps (readings [0]) (readings [0] 0) 300 ''t''
          (take 2 (steps (stub [''R1'', ''R2'', ''R3'', ''R4'', ''R5'']) init)) 1 [] [])
     = [(build_messages (history_agent init)
           ''Provide relevant historical context and information for the following task: t'' None,
         Inr ''R1''),
        (build_messages (data_agent init)
           ''Based on the historical context, what specific data or statistical information would be helpful to answer the original question? Historical context: History Agent: R1''
           (Some [\<lparr>role = ''ai'', content = ''History Agent: R1''\<rparr>]),
         Inr ''R2'')]
   \<and> length (snd (solve (stub [''R1'', ''R2'', ''R3'', ''R4'', ''R5'']) (readings [0]) init ''t'' 300 [])) = 5"
  using one_call_per_step[where k = 2 and clk = "readings [0]" and timeout = 300 and task = "''t''"
          and llm = "stub [''R1'', ''R2'', ''R3'', ''R4'', ''R5'']" and self = init and lg = "[]"
          and c = "[\<lparr>role = ''ai'', content = ''History Agent: R1''\<rparr>]"
          and l = "[(build_messages (history_agent init)
                       ''Provide relevant historical context and information for the following task: t'' None,
                     Inr ''R1'')]"]
  by (simp add: solve_def steps_def step_defs process_eq stub_def readings_def Let_def)

text \<open>
  C7, as amended. With a language model that answers \<open>R1\<close>, ..., \<open>R5\<close> in turn whatever
  it is asked, two runs of \<^verbatim>\<open>solve\<close> in succession on the same system and task, in
  neither of which a timeout check fires, both return \<open>R5\<close>, both have built the context
  \<^verbatim>\<open>History Agent: R1\<close>, \<^verbatim>\<open>Data Agent: R2\<close>, \<^verbatim>\<open>History Agent: R3\<close>,
  \<^verbatim>\<open>Data Agent: R4\<close> (all of role \<^verbatim>\<open>ai\<close>) when the fifth step starts, and the second
  run makes the very calls the first one made: nothing of the first run's context is
  in the second. As the claim stands it fails: it leaves the timeout open, and with a
  timeout the first check exceeds both runs return the timeout string and build no
  context.
\<close>

theorem deterministic_reuse_counterexample:
  "fst (solve (stub [''R1'', ''R2'', ''R3'', ''R4'', ''R5'']) (readings [0]) init ''t'' (- 1) [])
     = Inr ''Operation timed out. The process took too long to complete.''
   \<and> fst (solve (stub [''R1'', ''R2'', ''R3'', ''R4'', ''R5'']) (readings [0]) init ''t'' (- 1)
            (snd (solve (stub [''R1'', ''R2'', ''R3'', ''R4'', ''R5'']) (readings [0]) init ''t'' (- 1) [])))
     = Inr ''Operation timed out. The process took too long to complete.''
   \<and> fst (solve (stub [''R1'', ''R2'', ''R3'', ''R4'', ''R5'']) (readings [0]) init ''t'' (- 1) [])
     \<noteq> Inr ''R5''
   \<and> fst (run_steps (readings [0]) (readings [0] 0) (- 1) ''t''
            (take 4 (steps (stub [''R1'', ''R2'', ''R3'', ''R4'', ''R5'']) init)) 1 [] [])
     \<noteq> Exhausted [\<lparr>role = ''ai'', content = ''History Agent: R1''\<rparr>,
                   \<lparr>role = ''ai'', content = ''Data Agent: R2''\<rparr>,
                   \<lparr>role = ''ai'', content = ''History Agent: R3''\<rparr>,
                   \<lparr>role = ''ai'', content = ''Data Agent: R4''\<rparr>]"
  by (simp add: solve_def steps_def step_defs process_eq stub_def readings_def Let_def)

theorem deterministic_reuse:
  assumes "\<forall>k \<in> {1..5}. clk1 k - clk1 0 \<le> real_of_int timeout"
    and "\<forall>k \<in> {1..5}. clk2 k - clk2 0 \<le> real_of_int timeout"
  shows "let llm = stub [R1, R2, R3, R4, R5];
             transcript = [\<lparr>role = ''ai'', content = ''History Agent: '' @ R1\<rparr>,
                           \<lparr>role = ''ai'', content = ''Data Agent: '' @ R2\<rparr>,
                           \<lparr>role = ''ai'', content = ''History Agent: '' @ R3\<rparr>,
                           \<lparr>role = ''ai'', content = ''Data Agent: '' @ R4\<rparr>];
             first = solve llm clk1 self task timeout [];
             second = solve llm clk2 self task timeout (snd first)
         in fst first = Inr R5 \<and> fst second = Inr R5
            \<and> fst (run_steps clk1 (clk1 0) timeout task (take 4 (steps llm self)) 1 [] [])
                = Exhausted transcript
            \<and> fst (run_steps clk2 (clk2 0) timeout task (take 4 (steps llm self)) 1 [] (snd first))
                = Exhausted transcript
            \<and> snd second = snd first @ snd first"
proof -
  have c1: "\<not> real_of_int timeout < clk1 (Suc 0) - clk1 0" "\<not> real_of_int timeout < clk1 2 - clk1 0"
    "\<not> real_of_int timeout < clk1 3 - clk1 0" "\<not> real_of_int timeout < clk1 4 - clk1 0"
    "\<not> real_of_int timeout < clk1 5 - clk1 0"
    using assms(1) by (simp_all add: not_less)
  have c2: "\<not> real_of_int timeout < clk2 (Suc 0) - clk2 0" "\<not> real_of_int timeout < clk2 2 - clk2 0"
    "\<not> real_of_int timeout < clk2 3 - clk2 0" "\<not> real_of_int timeout < clk2 4 - clk2 0"
    "\<not> real_of_int timeout < clk2 5 - clk2 0"
    using assms(2) by (simp_all add: not_less)
  have n: "Suc (Suc 0) = 2" "Suc 2 = 3" "Suc 3 = 4" "Suc 4 = 5" by simp_all
  show ?thesis
    by (simp add: solve_def steps_def step_defs process_eq stub_def Let_def c1 c2 n)
qed

theorem deterministic_reuse_witness:
  "fst (solve (stub [''R1'', ''R2'', ''R3'', ''R4'', ''R5'']) (readings [0]) init ''t'' 300 []) = Inr ''R5''
   \<and> fst (solve (stub [''R1'', ''R2'', ''R3'', ''R4'', ''R5'']) (readings [7]) init ''t'' 300
            (snd (solve (stub [''R1'', ''R2'', ''R3'', ''R4'', ''R5'']) (readings [0]) init ''t'' 300 [])))
       = Inr ''R5''"
  using deterministic_reuse[where ?clk1.0 = "readings [0]" and ?clk2.0 = "readings [7]" and timeout = 300
          and ?R1.0 = "''R1''" and ?R2.0 = "''R2''" and ?R3.0 = "''R3''" and ?R4.0 = "''R4''"
          and ?R5.0 = "''R5''" and self = init and task = "''t''"]
  by (simp add: readings_def Let_def)

end
